theory Spec2Isabelle
  imports Complex_Main "HOL-Library.Multiset"
begin

section \<open>Values of the Python program\<close>

text \<open>
  The clustering module \<^verbatim>\<open>phylo/celluloid.py\<close> has two functions: the dissimilarity
  \<^verbatim>\<open>_conflict_dissim\<close>, handed to the k-modes clusterer as its \<^verbatim>\<open>cat_dissim\<close>, and
  \<^verbatim>\<open>cluster_mutations\<close>. Both are embedded below, statement by statement.

  A Python float is a finite dyadic rational, an infinity or NaN. The finite ones are
  modelled by their exact rational value: \<^verbatim>\<open>int(x)\<close> and the comparisons of a float with
  an int, the only operations the module applies to \<^verbatim>\<open>k\<close> and \<^verbatim>\<open>number_of_iterations\<close>,
  are exact in Python.
\<close>

datatype pyfloat = Finite rat | PosInf | NegInf | NaN

datatype pynum = PyInt int | PyBool bool | PyFloat pyfloat

text \<open>
  Every exception the embedded code can raise. The two \<^verbatim>\<open>ValueError\<close>s of the parameter
  check carry the offending value, which their messages print:
  \<^verbatim>\<open>the number of clusters must be a positive integer, but {k} is not.\<close> and
  \<^verbatim>\<open>the number of iterations must be a positive integer, but {number_of_iterations} is not.\<close>
\<close>

datatype error =
    ValueError_clusters pynum
  | ValueError_iterations pynum
  | ValueError_nan_to_int        \<comment> \<open>\<^verbatim>\<open>int(float('nan'))\<close>: cannot convert float NaN to integer\<close>
  | OverflowError_inf_to_int     \<comment> \<open>\<^verbatim>\<open>int(float('inf'))\<close>: cannot convert float infinity to integer\<close>
  | ValueError_vectorize_size0   \<comment> \<open>\<^verbatim>\<open>np.vectorize\<close> without \<^verbatim>\<open>otypes\<close> on a size 0 input\<close>
  | ValueError_broadcast         \<comment> \<open>operands could not be broadcast together\<close>
  | AxisError                    \<comment> \<open>axis 1 is out of bounds for array of dimension 1\<close>
  | ValueError_inhomogeneous     \<comment> \<open>\<^verbatim>\<open>np.array\<close> on rows of different lengths\<close>
  | IndexError
  | AttributeError
  | ClustererError string        \<comment> \<open>anything the external clusterer raises\<close>

section \<open>The dissimilarity \<^verbatim>\<open>_conflict_dissim\<close>\<close>

text \<open>
  NumPy arrays of integers, of one or two dimensions: a vector, or a grid given by its
  rows. The rows of a grid have one length (the arrays of NumPy are rectangular); the
  theorems below say so where they need it.
\<close>

datatype ndarray = Vec "int list" | Mat "int list list"

datatype boolarray = BVec "bool list" | BMat "bool list list"

text \<open>The lambda of line 32: \<^verbatim>\<open>ai != 2 and bi != 2 and ai != bi\<close>.\<close>

definition conflict :: "int \<Rightarrow> int \<Rightarrow> bool" where
  "conflict ai bi \<longleftrightarrow> ai \<noteq> 2 \<and> bi \<noteq> 2 \<and> ai \<noteq> bi"

fun np_size :: "ndarray \<Rightarrow> nat" where
  "np_size (Vec xs) = length xs"
| "np_size (Mat rows) = sum_list (map length rows)"

text \<open>
  Broadcasting along one axis: the two lengths are equal, or one of them is 1 and its
  only element is repeated; anything else is a \<^verbatim>\<open>ValueError\<close>.
\<close>

definition broadcast_axis :: "('a \<Rightarrow> 'a \<Rightarrow> error + 'b) \<Rightarrow> 'a list \<Rightarrow> 'a list \<Rightarrow> (error + 'b) list option" where
  "broadcast_axis f xs ys =
     (if length xs = length ys then Some (map2 f xs ys)
      else if length xs = 1 then Some (map (f (hd xs)) ys)
      else if length ys = 1 then Some (map (\<lambda>x. f x (hd ys)) xs)
      else None)"

fun collect :: "(error + 'a) list \<Rightarrow> error + 'a list" where
  "collect [] = Inr []"
| "collect (Inl e # rs) = Inl e"
| "collect (Inr x # rs) = (case collect rs of Inl e \<Rightarrow> Inl e | Inr xs \<Rightarrow> Inr (x # xs))"

definition broadcast :: "('a \<Rightarrow> 'a \<Rightarrow> error + 'b) \<Rightarrow> 'a list \<Rightarrow> 'a list \<Rightarrow> error + 'b list" where
  "broadcast f xs ys =
     (case broadcast_axis f xs ys of None \<Rightarrow> Inl ValueError_broadcast | Some rs \<Rightarrow> collect rs)"

text \<open>
  \<^verbatim>\<open>np.vectorize(f)(a, b)\<close> with no \<^verbatim>\<open>otypes\<close>: it refuses an input of size 0 (it would
  have no first element to find the output type from), then applies \<^verbatim>\<open>f\<close> elementwise
  over the broadcast of the two shapes, the shorter shape aligned at the last axis.
\<close>

definition vectorize :: "(int \<Rightarrow> int \<Rightarrow> bool) \<Rightarrow> ndarray \<Rightarrow> ndarray \<Rightarrow> error + boolarray" where
  "vectorize f a b =
     (if np_size a = 0 \<or> np_size b = 0 then Inl ValueError_vectorize_size0
      else
        (let elem = (\<lambda>x y. Inr (f x y));
             row = broadcast elem
         in case (a, b) of
              (Vec xs, Vec ys) \<Rightarrow> map_sum id BVec (row xs ys)
            | (Vec xs, Mat bs) \<Rightarrow> map_sum id BMat (broadcast row [xs] bs)
            | (Mat as, Vec ys) \<Rightarrow> map_sum id BMat (broadcast row as [ys])
            | (Mat as, Mat bs) \<Rightarrow> map_sum id BMat (broadcast row as bs)))"

text \<open>\<^verbatim>\<open>np.sum(x, axis = 1)\<close> of a boolean array: the number of \<^verbatim>\<open>True\<close>s of each row.\<close>

definition np_sum_axis1 :: "boolarray \<Rightarrow> error + int list" where
  "np_sum_axis1 x =
     (case x of
        BVec _ \<Rightarrow> Inl AxisError
      | BMat rows \<Rightarrow> Inr (map (\<lambda>r. sum_list (map (\<lambda>c. if c then 1 else 0) r)) rows))"

text \<open>Lines 31 to 33.\<close>

definition conflict_dissim :: "ndarray \<Rightarrow> ndarray \<Rightarrow> error + int list" where
  "conflict_dissim a b =
     (case vectorize conflict a b of
        Inl e \<Rightarrow> Inl e
      | Inr v \<Rightarrow> np_sum_axis1 v)"

section \<open>The parameter check of \<^verbatim>\<open>cluster_mutations\<close>\<close>

text \<open>
  \<^verbatim>\<open>int(x)\<close>: the identity on an int, 0 or 1 on a bool, truncation towards zero on a finite
  float; NaN and the infinities raise.
\<close>

definition py_trunc :: "rat \<Rightarrow> int" where
  "py_trunc q = (if 0 \<le> q then \<lfloor>q\<rfloor> else \<lceil>q\<rceil>)"

fun py_int :: "pynum \<Rightarrow> error + int" where
  "py_int (PyInt i) = Inr i"
| "py_int (PyBool b) = Inr (if b then 1 else 0)"
| "py_int (PyFloat (Finite q)) = Inr (py_trunc q)"
| "py_int (PyFloat NaN) = Inl ValueError_nan_to_int"
| "py_int (PyFloat PosInf) = Inl OverflowError_inf_to_int"
| "py_int (PyFloat NegInf) = Inl OverflowError_inf_to_int"

text \<open>\<^verbatim>\<open>i != x\<close> for an int \<^verbatim>\<open>i\<close>, and \<^verbatim>\<open>x < 1\<close>; Python compares numbers by value.\<close>

fun py_ne_int :: "int \<Rightarrow> pynum \<Rightarrow> bool" where
  "py_ne_int i (PyInt j) = (i \<noteq> j)"
| "py_ne_int i (PyBool b) = (i \<noteq> (if b then 1 else 0))"
| "py_ne_int i (PyFloat (Finite q)) = (of_int i \<noteq> q)"
| "py_ne_int i (PyFloat _) = True"

fun py_lt_one :: "pynum \<Rightarrow> bool" where
  "py_lt_one (PyInt j) = (j < 1)"
| "py_lt_one (PyBool b) = (\<not> b)"
| "py_lt_one (PyFloat (Finite q)) = (q < 1)"
| "py_lt_one (PyFloat NegInf) = True"
| "py_lt_one (PyFloat _) = False"

text \<open>
  The condition of lines 62 and 64, \<^verbatim>\<open>int(x) != x or x < 1\<close>: the conversion comes first
  and may raise.
\<close>

definition not_positive_integer :: "pynum \<Rightarrow> error + bool" where
  "not_positive_integer x =
     (case py_int x of
        Inl e \<Rightarrow> Inl e
      | Inr i \<Rightarrow> Inr (py_ne_int i x \<or> py_lt_one x))"

section \<open>Objects\<close>

text \<open>
  The objects that outlive a call are kept in a store, so that what a call changes can
  be told from what it leaves alone. An address is an index of the store; a new object
  is appended.
\<close>

type_synonym addr = nat

text \<open>
  Modelled from the spec: the class \<^verbatim>\<open>GenotypeMatrix\<close> of \<^verbatim>\<open>phylo/core/genotypematrix.py\<close>,
  which is not among the sources. An instance holds its grid (the rows are the cells,
  the columns the mutations), its cell labels and its mutation labels; the constructor
  takes the three and keeps them; \<^verbatim>\<open>matrix()\<close> returns the grid as a list of rows.
  The accessors are \<open>gm_matrix\<close> for \<^verbatim>\<open>g.matrix()\<close>, \<open>gm_cell_labels\<close> for
  \<^verbatim>\<open>g.cell_labels\<close> and \<open>gm_mutation_labels\<close> for \<^verbatim>\<open>g.mutation_labels\<close>.
\<close>

datatype obj =
    StrList "string list"
  | Grid "int list list"
  | GenotypeMatrix addr addr addr   \<comment> \<open>matrix data, \<^verbatim>\<open>cell_labels\<close>, \<^verbatim>\<open>mutation_labels\<close>\<close>

type_synonym heap = "obj list"

definition hp_get :: "heap \<Rightarrow> addr \<Rightarrow> obj option" where
  "hp_get h a = (if a < length h then Some (h ! a) else None)"

definition hp_new :: "heap \<Rightarrow> obj \<Rightarrow> heap \<times> addr" where
  "hp_new h x = (h @ [x], length h)"

definition gm_matrix :: "heap \<Rightarrow> addr \<Rightarrow> int list list option" where
  "gm_matrix h g =
     (case hp_get h g of
        Some (GenotypeMatrix d c m) \<Rightarrow>
          (case hp_get h d of Some (Grid rows) \<Rightarrow> Some rows | _ \<Rightarrow> None)
      | _ \<Rightarrow> None)"

definition gm_cell_labels_ref :: "heap \<Rightarrow> addr \<Rightarrow> addr option" where
  "gm_cell_labels_ref h g =
     (case hp_get h g of Some (GenotypeMatrix d c m) \<Rightarrow> Some c | _ \<Rightarrow> None)"

definition gm_cell_labels :: "heap \<Rightarrow> addr \<Rightarrow> string list option" where
  "gm_cell_labels h g =
     (case hp_get h g of
        Some (GenotypeMatrix d c m) \<Rightarrow>
          (case hp_get h c of Some (StrList ls) \<Rightarrow> Some ls | _ \<Rightarrow> None)
      | _ \<Rightarrow> None)"

definition gm_mutation_labels :: "heap \<Rightarrow> addr \<Rightarrow> string list option" where
  "gm_mutation_labels h g =
     (case hp_get h g of
        Some (GenotypeMatrix d c m) \<Rightarrow>
          (case hp_get h m of Some (StrList ls) \<Rightarrow> Some ls | _ \<Rightarrow> None)
      | _ \<Rightarrow> None)"

section \<open>NumPy on lists of rows\<close>

text \<open>\<^verbatim>\<open>np.array(rows)\<close> copies a list of rows of one length, and raises on any other.\<close>

definition np_array :: "int list list \<Rightarrow> error + int list list" where
  "np_array rows =
     (if list_all (\<lambda>r. length r = length (hd rows)) rows then Inr rows
      else Inl ValueError_inhomogeneous)"

text \<open>
  \<^verbatim>\<open>.transpose()\<close>: row \<open>j\<close> of the result is column \<open>j\<close> of the argument. An array of no
  rows, or of rows of length 0, has no element and is transposed to the array of no rows.
\<close>

definition np_transpose :: "int list list \<Rightarrow> int list list" where
  "np_transpose rows =
     (case rows of
        [] \<Rightarrow> []
      | r # _ \<Rightarrow> map (\<lambda>j. map (\<lambda>row. row ! j) rows) [0..<length r])"

definition index_row :: "int list list \<Rightarrow> nat \<Rightarrow> error + int list" where
  "index_row arr i = (if i < length arr then Inr (arr ! i) else Inl IndexError)"

section \<open>The external clusterer\<close>

text \<open>
  \<^verbatim>\<open>KModes\<close> of the package \<^verbatim>\<open>kmodes\<close> is not part of the repository: it is a parameter of
  the model. It is configured by the keyword arguments of lines 70 to 76 and fitted on
  the points; it raises, or it leaves the cluster id of every point in \<^verbatim>\<open>labels_\<close>
  (unsigned integers) and the centroids in \<^verbatim>\<open>cluster_centroids_\<close>. It is handed the
  array of points itself, so it may also write into it: \<open>X_after\<close> is what the array
  holds when the fit returns.
\<close>

record km_config =
  n_clusters :: pynum
  cat_dissim :: "ndarray \<Rightarrow> ndarray \<Rightarrow> error + int list"
  init :: string
  n_init :: pynum
  verbose :: int

record km_fit =
  km_labels :: "nat list"                   \<comment> \<open>\<^verbatim>\<open>km.labels_\<close>\<close>
  km_cluster_centroids :: "int list list"   \<comment> \<open>\<^verbatim>\<open>km.cluster_centroids_\<close>\<close>
  X_after :: "int list list"

type_synonym clusterer = "km_config \<Rightarrow> int list list \<Rightarrow> error + km_fit"

section \<open>\<^verbatim>\<open>cluster_mutations\<close>\<close>

text \<open>
  The \<^verbatim>\<open>defaultdict(list)\<close> of line 82, as an association list in insertion order (the
  order of a Python dict): \<open>dd_append d c l\<close> is \<^verbatim>\<open>d[c].append(l)\<close> and \<open>dd_get d c\<close>
  is \<^verbatim>\<open>d[c]\<close>.
\<close>

fun dd_append :: "(nat \<times> string list) list \<Rightarrow> nat \<Rightarrow> string \<Rightarrow> (nat \<times> string list) list" where
  "dd_append [] c l = [(c, [l])]"
| "dd_append ((c', ls) # d) c l =
     (if c' = c then (c', ls @ [l]) # d else (c', ls) # dd_append d c l)"

definition dd_get :: "(nat \<times> string list) list \<Rightarrow> nat \<Rightarrow> string list" where
  "dd_get d c = (case map_of d c of Some ls \<Rightarrow> ls | None \<Rightarrow> [])"

text \<open>The loop of lines 82 to 84, from the empty dictionary.\<close>

definition group_labels :: "string list \<Rightarrow> nat list \<Rightarrow> (nat \<times> string list) list" where
  "group_labels mutation_labels clusters_of_mutations =
     fold (\<lambda>(mutation_label, mutation_cluster) d. dd_append d mutation_cluster mutation_label)
       (zip mutation_labels clusters_of_mutations) []"

text \<open>\<^verbatim>\<open>','.join(ls)\<close>.\<close>

fun join_commas :: "string list \<Rightarrow> string" where
  "join_commas [] = []"
| "join_commas [l] = l"
| "join_commas (l # l' # ls) = l @ '','' @ join_commas (l' # ls)"

text \<open>The keyword arguments of lines 70 to 76.\<close>

definition KModes_args :: "pynum \<Rightarrow> pynum \<Rightarrow> bool \<Rightarrow> km_config" where
  "KModes_args k number_of_iterations verbose_flag =
     \<lparr>n_clusters = k, cat_dissim = conflict_dissim, init = ''huang'',
      n_init = number_of_iterations,
      verbose = (if verbose_flag then 1 else 0)\<rparr>"

text \<open>
  Lines 35 to 96. The store is threaded through; the result is the store after the
  call and the exception raised or the address of the matrix returned. \<^verbatim>\<open>np.array\<close> of
  line 67 copies the grid it is given: the points, the transposed copy, are a new
  object of the store, and it is this object that the clusterer is handed.
\<close>

definition cluster_mutations ::
  "clusterer \<Rightarrow> heap \<Rightarrow> addr \<Rightarrow> pynum \<Rightarrow> pynum \<Rightarrow> bool \<Rightarrow> heap \<times> (error + addr)" where
  "cluster_mutations KModes h genotype_matrix k number_of_iterations verbose_flag =
     (case not_positive_integer k of
        Inl e \<Rightarrow> (h, Inl e)
      | Inr True \<Rightarrow> (h, Inl (ValueError_clusters k))
      | Inr False \<Rightarrow>
     (case not_positive_integer number_of_iterations of
        Inl e \<Rightarrow> (h, Inl e)
      | Inr True \<Rightarrow> (h, Inl (ValueError_iterations number_of_iterations))
      | Inr False \<Rightarrow>
     (case gm_matrix h genotype_matrix of
        None \<Rightarrow> (h, Inl AttributeError)
      | Some rows \<Rightarrow>
     (case np_array rows of
        Inl e \<Rightarrow> (h, Inl e)
      | Inr arr \<Rightarrow>
     (let (h1, p) = hp_new h (Grid (np_transpose arr));
          mutations_as_points = np_transpose arr
      in
     (case gm_mutation_labels h1 genotype_matrix of
        None \<Rightarrow> (h1, Inl AttributeError)
      | Some mutation_labels \<Rightarrow>
     (case KModes (KModes_args k number_of_iterations verbose_flag) mutations_as_points of
        Inl e \<Rightarrow> (h1, Inl e)
      | Inr km \<Rightarrow>
     (let h2 = h1[p := Grid (X_after km)];
          clusters_of_mutations = km_labels km;
          clustered_mutation_labels = group_labels mutation_labels clusters_of_mutations;
          nonempty_clusters = map fst clustered_mutation_labels;
          cluster_centroids = km_cluster_centroids km;
          clustered_mutation_labels_strings =
            map (\<lambda>cluster_id. join_commas (dd_get clustered_mutation_labels cluster_id))
              (sort nonempty_clusters);
          (h3, ls) = hp_new h2 (StrList clustered_mutation_labels_strings)
      in
     (case collect (map (index_row cluster_centroids) (sort nonempty_clusters)) of
        Inl e \<Rightarrow> (h3, Inl e)
      | Inr out_matrix \<Rightarrow>
     (case np_array out_matrix of
        Inl e \<Rightarrow> (h3, Inl e)
      | Inr out_arr \<Rightarrow>
     (let (h4, m) = hp_new h3 (Grid (np_transpose out_arr))
      in
     (case gm_cell_labels_ref h4 genotype_matrix of
        None \<Rightarrow> (h4, Inl AttributeError)
      | Some cs \<Rightarrow>
     (let (h5, g) = hp_new h4 (GenotypeMatrix m cs ls)
      in (h5, Inr g))))))))))))))"

section \<open>The notions of the specification\<close>

text \<open>
  The distance as the specification words it: the number of positions \<open>i\<close> in
  \<open>0..L-1\<close> with \<^verbatim>\<open>a[i] != 2 and b[i] != 2 and a[i] != b[i]\<close>.
\<close>

definition spec_distance :: "int list \<Rightarrow> int list \<Rightarrow> nat" where
  "spec_distance a b =
     length (filter (\<lambda>i. a ! i \<noteq> 2 \<and> b ! i \<noteq> 2 \<and> a ! i \<noteq> b ! i) [0..<length a])"

text \<open>
  A positive integer, by value: the number has a value (it is not NaN or an infinity),
  the value equals its integer truncation, and it is at least 1.
\<close>

fun py_value :: "pynum \<Rightarrow> rat option" where
  "py_value (PyInt i) = Some (of_int i)"
| "py_value (PyBool b) = Some (if b then 1 else 0)"
| "py_value (PyFloat (Finite q)) = Some q"
| "py_value (PyFloat _) = None"

definition positive_integer :: "pynum \<Rightarrow> bool" where
  "positive_integer x =
     (case py_value x of None \<Rightarrow> False | Some q \<Rightarrow> of_int (py_trunc q) = q \<and> 1 \<le> q)"

text \<open>
  Splitting a label on commas, \<^verbatim>\<open>label.split(',')\<close>: the pieces between the commas, one
  more than there are commas. (A comma is one byte of UTF-8 and no part of another
  character, so splitting bytes splits the text.)
\<close>

fun split_commas :: "string \<Rightarrow> string list" where
  "split_commas [] = [[]]"
| "split_commas (c # cs) =
     (if c = CHR '','' then [] # split_commas cs
      else (c # hd (split_commas cs)) # tl (split_commas cs))"

text \<open>
  The labels of the mutations assigned to cluster \<open>c\<close>, in the original column order:
  \<open>labels\<close> are the mutation labels and \<open>ids\<close> the cluster ids of the columns.
\<close>

definition members :: "string list \<Rightarrow> nat list \<Rightarrow> nat \<Rightarrow> string list" where
  "members labels ids c = map fst (filter (\<lambda>(l, c'). c' = c) (zip labels ids))"

text \<open>The number of columns of a grid given by its rows.\<close>

definition ncols :: "int list list \<Rightarrow> nat" where
  "ncols rows = (case rows of [] \<Rightarrow> 0 | r # _ \<Rightarrow> length r)"


section \<open>Example inputs\<close>

text \<open>
  A store holding one genotype matrix of two cells and three mutations, at address 3.
\<close>

definition example_heap :: heap where
  "example_heap =
     [Grid [[0, 1, 0], [1, 1, 2]], StrList [''c1'', ''c2''], StrList [''a'', ''b'', ''c''],
      GenotypeMatrix 0 1 2]"

text \<open>The same matrix, its first mutation label holding a comma.\<close>

definition comma_heap :: heap where
  "comma_heap =
     [Grid [[0, 1, 0], [1, 1, 2]], StrList [''c1'', ''c2''], StrList [''a,b'', ''c'', ''d''],
      GenotypeMatrix 0 1 2]"

text \<open>
  A clusterer that puts the first and the third of three points into cluster 2 and the
  second into cluster 0, leaves cluster 1 empty, and overwrites the points it was handed.
\<close>

definition example_km :: clusterer where
  "example_km cfg X =
     Inr \<lparr>km_labels = [2, 0, 2],
          km_cluster_centroids = [[1, 1], [2, 2], [0, 1]],
          X_after = map (map (\<lambda>_. 7)) X\<rparr>"

text \<open>The store after the example matrix has been clustered by \<open>example_km\<close>.\<close>

definition example_result :: heap where
  "example_result =
     example_heap @
     [Grid [[7, 7], [7, 7], [7, 7]], StrList [''b'', ''a,c''], Grid [[1, 0], [1, 1]],
      GenotypeMatrix 6 1 5]"


section \<open>The dissimilarity: what it computes\<close>

lemma collect_map_Inr: "collect (map (\<lambda>x. Inr (g x)) xs) = Inr (map g xs)"
  by (induction xs) auto

lemma broadcast_same_length:
  "length xs = length ys \<Longrightarrow> broadcast (\<lambda>x y. Inr (f x y)) xs ys = Inr (map2 f xs ys)"
  using collect_map_Inr [of "\<lambda>(x, y). f x y" "zip xs ys"]
  by (simp add: broadcast_def broadcast_axis_def case_prod_unfold)

lemma broadcast_one_row:
  assumes "bs \<noteq> []"
  shows "broadcast_axis f [a] bs = Some (map (f a) bs)"
proof (cases "length bs = 1")
  case True
  then obtain b where "bs = [b]" by (cases bs) auto
  then show ?thesis by (simp add: broadcast_axis_def)
next
  case False
  with assms show ?thesis by (simp add: broadcast_axis_def)
qed

lemma sum_indicator: "sum_list (map (\<lambda>c. if c then 1 else 0) cs) = int (length (filter id cs))"
  by (induction cs) auto

lemma map2_by_index:
  assumes "length xs = length ys"
  shows "map2 P xs ys = map (\<lambda>i. P (xs ! i) (ys ! i)) [0..<length xs]"
  using assms by (intro nth_equalityI) auto

lemma count_conflicts:
  assumes "length a = length b"
  shows "sum_list (map (\<lambda>c. if c then 1 else 0) (map2 conflict a b)) = int (spec_distance a b)"
proof -
  have "filter id (map2 conflict a b)
      = map (\<lambda>i. conflict (a ! i) (b ! i)) (filter (\<lambda>i. conflict (a ! i) (b ! i)) [0..<length a])"
    by (simp add: map2_by_index [OF assms] filter_map comp_def)
  then have "length (filter id (map2 conflict a b)) = spec_distance a b"
    by (simp add: spec_distance_def conflict_def)
  then show ?thesis
    by (simp only: sum_indicator)
qed

lemma vectorize_batched:
  assumes "a \<noteq> []" and "bs \<noteq> []" and "\<forall>b \<in> set bs. length b = length a"
  shows "vectorize f (Vec a) (Mat bs) = Inr (BMat (map (\<lambda>b. map2 f a b) bs))"
proof -
  obtain b bs' where bs: "bs = b # bs'"
    using assms(2) by (cases bs) auto
  have "length b = length a"
    using assms(3) bs by simp
  with assms(1) have size: "sum_list (map length bs) \<noteq> 0"
    by (simp add: bs)
  have rows: "map (broadcast (\<lambda>x y. Inr (f x y)) a) bs = map (\<lambda>b. Inr (map2 f a b)) bs"
    using assms(3) by (simp add: broadcast_same_length)
  have "broadcast (broadcast (\<lambda>x y. Inr (f x y))) [a] bs = Inr (map (\<lambda>b. map2 f a b) bs)"
    by (simp add: broadcast_def [of _ "[a]"] broadcast_one_row [OF assms(2)] rows collect_map_Inr)
  with assms(1) size show ?thesis
    by (simp add: vectorize_def)
qed

lemma dissim_batched:
  assumes "a \<noteq> []" and "bs \<noteq> []" and "\<forall>b \<in> set bs. length b = length a"
  shows "conflict_dissim (Vec a) (Mat bs) = Inr (map (\<lambda>b. int (spec_distance a b)) bs)"
proof -
  have row: "sum_list (map (\<lambda>c. if c then 1 else 0) (map2 conflict a b)) = int (spec_distance a b)"
    if "b \<in> set bs" for b
    using that assms(3) by (intro count_conflicts) simp
  have "map (\<lambda>b. sum_list (map (\<lambda>c. if c then 1 else 0) (map2 conflict a b))) bs
      = map (\<lambda>b. int (spec_distance a b)) bs"
    by (rule map_cong [OF refl]) (rule row)
  then show ?thesis
    by (simp only: conflict_dissim_def vectorize_batched [OF assms] np_sum_axis1_def
        sum.case boolarray.case map_map comp_def)
qed

lemma dissim_pair:
  assumes "a \<noteq> []" and "length b = length a"
  shows "conflict_dissim (Vec a) (Vec b) = Inl AxisError"
  using assms
  by (simp add: conflict_dissim_def vectorize_def broadcast_same_length np_sum_axis1_def)

lemma dissim_pair_raises: "\<exists>e. conflict_dissim (Vec a) (Vec b) = Inl e"
  by (cases "broadcast (\<lambda>x y. Inr (conflict x y) :: error + bool) a b")
     (auto simp: conflict_dissim_def vectorize_def np_sum_axis1_def)

lemma broadcast_axis_commute:
  assumes "\<And>x y. f x y = g y x"
  shows "broadcast_axis f xs ys = broadcast_axis g ys xs"
proof -
  have f: "f = (\<lambda>x y. g y x)"
    using assms by (intro ext)
  have "map2 (\<lambda>x y. g y x) xs ys = map2 g ys xs"
    by (subst zip_commute) (simp add: case_prod_unfold comp_def)
  then show ?thesis
    unfolding f by (auto simp: broadcast_axis_def)
qed

lemma broadcast_commute:
  assumes "\<And>x y. f x y = g y x"
  shows "broadcast f xs ys = broadcast g ys xs"
  by (simp add: broadcast_def broadcast_axis_commute [of f g, OF assms])

lemma conflict_commute: "conflict x y = conflict y x"
  by (auto simp: conflict_def)

lemma vectorize_commute: "vectorize conflict a b = vectorize conflict b a"
proof -
  let ?elem = "\<lambda>x y. (Inr (conflict x y) :: error + bool)"
  have row: "broadcast ?elem xs ys = broadcast ?elem ys xs" for xs ys
    by (rule broadcast_commute) (simp add: conflict_commute)
  have grid: "broadcast (broadcast ?elem) as bs = broadcast (broadcast ?elem) bs as" for as bs
    by (rule broadcast_commute) (rule row)
  show ?thesis
    by (cases a; cases b) (auto simp: vectorize_def Let_def row grid)
qed

lemma spec_distance_zero:
  "spec_distance a b = 0 \<longleftrightarrow> \<not> (\<exists>i < length a. a ! i \<noteq> 2 \<and> b ! i \<noteq> 2 \<and> a ! i \<noteq> b ! i)"
  by (auto simp: spec_distance_def filter_empty_conv)

text \<open>
  C1, as the specification states it: for every pair of equal-length ternary vectors
  \<open>a\<close> and \<open>b\<close>, the batched dissimilarity of \<open>a\<close> against a set of candidate rows returns,
  for each row \<open>b\<close>, the number of positions \<open>i\<close> with \<open>a[i] \<noteq> 2\<close>, \<open>b[i] \<noteq> 2\<close> and
  \<open>a[i] \<noteq> b[i]\<close>. The vectors of length 0 are a pair of equal-length vectors, and on
  them the function returns nothing: \<^verbatim>\<open>np.vectorize\<close> raises on an input of size 0.
\<close>

theorem conflict_dissim_empty_vectors_raise:
  "conflict_dissim (Vec []) (Mat [[]]) = Inl ValueError_vectorize_size0"
  by (simp add: conflict_dissim_def vectorize_def)

text \<open>
  C1, amended: for every non-empty vector \<open>a\<close> and every non-empty grid of candidate
  rows of the length of \<open>a\<close>, the batched dissimilarity returns, for each row \<open>b\<close>, exactly
  the number of positions \<open>i\<close> with \<open>a[i] \<noteq> 2\<close>, \<open>b[i] \<noteq> 2\<close> and \<open>a[i] \<noteq> b[i]\<close>: a position
  where either operand is 2 never contributes, also when both are 2. The values need
  not even be ternary. For \<open>a = [0,1,2,0]\<close> and \<open>b = [0,0,2,1]\<close> the distance is 2.
\<close>

theorem conflict_dissim_batched_counts:
  assumes "a \<noteq> []" and "bs \<noteq> []" and "\<forall>b \<in> set bs. length b = length a"
  shows "conflict_dissim (Vec a) (Mat bs) =
    Inr (map (\<lambda>b. int (length (filter (\<lambda>i. a ! i \<noteq> 2 \<and> b ! i \<noteq> 2 \<and> a ! i \<noteq> b ! i)
                                  [0..<length a]))) bs)"
  using dissim_batched [OF assms] by (simp add: spec_distance_def)

theorem conflict_dissim_batched_counts_witness:
  "conflict_dissim (Vec [0, 1, 2, 0]) (Mat [[0, 0, 2, 1], [2, 2, 2, 2]]) = Inr [2, 0]"
  using conflict_dissim_batched_counts [of "[0, 1, 2, 0]" "[[0, 0, 2, 1], [2, 2, 2, 2]]"]
  by (simp add: upt_rec)

lemma spec_distance_missing:
  assumes "length b = length a" and "set a \<subseteq> {2} \<or> set b \<subseteq> {2}"
  shows "spec_distance a b = 0"
proof -
  have "a ! i = 2 \<or> b ! i = 2" if "i < length a" for i
  proof -
    have "a ! i \<in> set a" and "b ! i \<in> set b"
      using that assms(1) by simp_all
    then show ?thesis
      using assms(2) by blast
  qed
  then show ?thesis
    by (auto simp: spec_distance_zero)
qed

text \<open>
  C6, as the specification states it: given two single vectors \<open>a\<close> and \<open>b\<close> of equal
  length (the single-pair form), the dissimilarity function returns one non-negative
  integer. On two vectors the elementwise comparison is one-dimensional, and the sum
  over axis 1 of line 33 raises.
\<close>

theorem conflict_dissim_single_pair_counterexample:
  "conflict_dissim (Vec [0, 1, 2, 0]) (Vec [0, 0, 2, 1]) = Inl AxisError"
  by (simp add: conflict_dissim_def vectorize_def broadcast_def broadcast_axis_def np_sum_axis1_def)

text \<open>
  C6, amended: the dissimilarity function has no single-pair form. Given two single
  vectors it always raises, and for two non-empty vectors of equal length what it
  raises is the axis error of the sum over axis 1. Given the vector \<open>a\<close> and the grid
  whose only row is \<open>b\<close>, it returns a sequence of one non-negative integer, the
  conflict count of \<open>a\<close> and \<open>b\<close>.
\<close>

theorem conflict_dissim_single_pair_raises:
  "(\<exists>e. conflict_dissim (Vec a) (Vec b) = Inl e) \<and>
   (a \<noteq> [] \<and> length b = length a \<longrightarrow>
      conflict_dissim (Vec a) (Vec b) = Inl AxisError \<and>
      (\<exists>d. conflict_dissim (Vec a) (Mat [b]) = Inr [d] \<and> 0 \<le> d \<and>
           d = int (length (filter (\<lambda>i. a ! i \<noteq> 2 \<and> b ! i \<noteq> 2 \<and> a ! i \<noteq> b ! i) [0..<length a]))))"
proof (intro conjI impI)
  show "\<exists>e. conflict_dissim (Vec a) (Vec b) = Inl e"
    by (rule dissim_pair_raises)
next
  assume "a \<noteq> [] \<and> length b = length a"
  then show "conflict_dissim (Vec a) (Vec b) = Inl AxisError"
    by (simp add: dissim_pair)
next
  assume "a \<noteq> [] \<and> length b = length a"
  then have "conflict_dissim (Vec a) (Mat [b]) = Inr [int (spec_distance a b)]"
    using dissim_batched [of a "[b]"] by simp
  then show "\<exists>d. conflict_dissim (Vec a) (Mat [b]) = Inr [d] \<and> 0 \<le> d \<and>
           d = int (length (filter (\<lambda>i. a ! i \<noteq> 2 \<and> b ! i \<noteq> 2 \<and> a ! i \<noteq> b ! i) [0..<length a]))"
    by (simp add: spec_distance_def)
qed

theorem conflict_dissim_single_pair_raises_witness:
  "conflict_dissim (Vec [0, 1, 2, 0]) (Vec [0, 0, 2, 1]) = Inl AxisError \<and>
   conflict_dissim (Vec [0, 1, 2, 0]) (Mat [[0, 0, 2, 1]]) = Inr [2]"
  using conflict_dissim_single_pair_raises [of "[0, 1, 2, 0]" "[0, 0, 2, 1]"]
  by (simp add: upt_rec)

text \<open>
  C7, as the specification states it: for all ternary vectors \<open>a\<close> and \<open>b\<close> of equal
  length, \<open>dissim(a,b) = dissim(b,a)\<close>, and the dissimilarity is zero exactly when no
  position holds two non-missing values that disagree. The vectors \<open>[0]\<close> and \<open>[0]\<close>,
  and the two empty vectors, have no such position (their distance in the words of the
  specification is 0), and the function returns no zero on them: it raises, on the pair
  of vectors and on the empty vector against the grid of one empty row.
\<close>

theorem conflict_dissim_zero_iff_counterexample:
  "spec_distance [0] [0] = 0 \<and>
   conflict_dissim (Vec [0]) (Vec [0]) = Inl AxisError \<and>
   spec_distance [] [] = 0 \<and>
   conflict_dissim (Vec []) (Mat [[]]) = Inl ValueError_vectorize_size0"
  by (simp add: spec_distance_def conflict_dissim_def vectorize_def broadcast_def
      broadcast_axis_def np_sum_axis1_def)

text \<open>
  C7, amended: the dissimilarity function is symmetric in its two arguments, whatever
  arrays they are (it returns the same distances, or raises the same error, in either
  order). For a non-empty vector \<open>a\<close> and a non-empty grid of rows of the length of \<open>a\<close>,
  it returns one distance for each row, and the distance of a row \<open>b\<close> is zero exactly
  when no position \<open>i\<close> has \<open>a[i] \<noteq> 2\<close>, \<open>b[i] \<noteq> 2\<close> and \<open>a[i] \<noteq> b[i]\<close>.
\<close>

theorem conflict_dissim_symmetric_zero_iff:
  "conflict_dissim x y = conflict_dissim y x \<and>
   (a \<noteq> [] \<and> bs \<noteq> [] \<and> (\<forall>b \<in> set bs. length b = length a) \<longrightarrow>
      (\<exists>ds. conflict_dissim (Vec a) (Mat bs) = Inr ds \<and> conflict_dissim (Mat bs) (Vec a) = Inr ds \<and>
            length ds = length bs \<and>
            (\<forall>j < length bs. ds ! j = 0 \<longleftrightarrow>
               \<not> (\<exists>i < length a. a ! i \<noteq> 2 \<and> bs ! j ! i \<noteq> 2 \<and> a ! i \<noteq> bs ! j ! i))))"
proof (intro conjI impI)
  show sym: "conflict_dissim x y = conflict_dissim y x" for x y
    by (simp add: conflict_dissim_def vectorize_commute [of x y])
  assume "a \<noteq> [] \<and> bs \<noteq> [] \<and> (\<forall>b \<in> set bs. length b = length a)"
  then have eq: "conflict_dissim (Vec a) (Mat bs) = Inr (map (\<lambda>b. int (spec_distance a b)) bs)"
    by (simp add: dissim_batched)
  show "\<exists>ds. conflict_dissim (Vec a) (Mat bs) = Inr ds \<and> conflict_dissim (Mat bs) (Vec a) = Inr ds \<and>
            length ds = length bs \<and>
            (\<forall>j < length bs. ds ! j = 0 \<longleftrightarrow>
               \<not> (\<exists>i < length a. a ! i \<noteq> 2 \<and> bs ! j ! i \<noteq> 2 \<and> a ! i \<noteq> bs ! j ! i))"
    using eq sym [of "Mat bs" "Vec a"] by (simp add: spec_distance_zero)
qed

theorem conflict_dissim_symmetric_zero_iff_witness:
  "conflict_dissim (Vec [0, 1, 2]) (Mat [[0, 2, 1], [1, 1, 1]]) =
     conflict_dissim (Mat [[0, 2, 1], [1, 1, 1]]) (Vec [0, 1, 2]) \<and>
   (\<exists>ds. conflict_dissim (Vec [0, 1, 2]) (Mat [[0, 2, 1], [1, 1, 1]]) = Inr ds \<and>
         length ds = 2 \<and> ds ! 0 = 0 \<and> ds ! 1 \<noteq> 0)"
  using conflict_dissim_symmetric_zero_iff [of "Vec [0, 1, 2]" "Mat [[0, 2, 1], [1, 1, 1]]" "[0, 1, 2]" "[[0, 2, 1], [1, 1, 1]]"]
  by (auto simp: All_less_Suc Ex_less_Suc)

text \<open>
  C8, as the specification states it: for all equal-length ternary vectors \<open>a\<close> and \<open>b\<close>
  such that every position of \<open>a\<close> is 2, or every position of \<open>b\<close> is 2,
  \<open>dissim(a,b) = 0\<close>. On the vectors \<open>[2]\<close> and \<open>[0]\<close> the function raises, and so it does
  on the empty vector (every position of which is 2) against the grid of one empty row.
\<close>

theorem conflict_dissim_missing_counterexample:
  "conflict_dissim (Vec [2]) (Vec [0]) = Inl AxisError \<and>
   conflict_dissim (Vec []) (Mat [[]]) = Inl ValueError_vectorize_size0"
  by (simp add: conflict_dissim_def vectorize_def broadcast_def broadcast_axis_def np_sum_axis1_def)

text \<open>
  C8, amended: for a non-empty vector \<open>a\<close> and a non-empty grid of rows of the length of
  \<open>a\<close>, the dissimilarity function returns one distance for each row, and the distance
  of a row \<open>b\<close> is 0 whenever every position of \<open>a\<close> is 2 or every position of \<open>b\<close> is 2.
\<close>

theorem conflict_dissim_missing_neutral:
  assumes "a \<noteq> []" and "bs \<noteq> []" and "\<forall>b \<in> set bs. length b = length a"
  shows "\<exists>ds. conflict_dissim (Vec a) (Mat bs) = Inr ds \<and> length ds = length bs \<and>
          (\<forall>j < length bs. set a \<subseteq> {2} \<or> set (bs ! j) \<subseteq> {2} \<longrightarrow> ds ! j = 0)"
  using assms by (simp add: dissim_batched spec_distance_missing)

theorem conflict_dissim_missing_neutral_witness:
  "(\<exists>ds. conflict_dissim (Vec [2, 2, 2]) (Mat [[0, 1, 2], [1, 1, 1]]) = Inr ds \<and>
         length ds = 2 \<and> ds ! 0 = 0 \<and> ds ! 1 = 0) \<and>
   (\<exists>ds. conflict_dissim (Vec [0, 1, 0]) (Mat [[2, 2, 2], [1, 1, 1]]) = Inr ds \<and>
         length ds = 2 \<and> ds ! 0 = 0)"
  using conflict_dissim_missing_neutral [of "[2, 2, 2]" "[[0, 1, 2], [1, 1, 1]]"] conflict_dissim_missing_neutral [of "[0, 1, 0]" "[[2, 2, 2], [1, 1, 1]]"]
  by (auto simp: All_less_Suc)

section \<open>The parameter check: what it accepts\<close>

lemma py_trunc_of_int: "py_trunc (of_int i) = i"
  by (simp add: py_trunc_def)

lemma not_positive_integer_False: "not_positive_integer x = Inr False \<longleftrightarrow> positive_integer x"
proof (cases x)
  case (PyInt i)
  then show ?thesis
    by (auto simp: not_positive_integer_def positive_integer_def py_trunc_of_int)
next
  case (PyBool b)
  then show ?thesis
    by (cases b) (auto simp: not_positive_integer_def positive_integer_def py_trunc_def)
next
  case (PyFloat f)
  then show ?thesis
    by (cases f) (auto simp: not_positive_integer_def positive_integer_def)
qed

lemma not_positive_integer_True:
  "not_positive_integer x = Inr True \<longleftrightarrow> py_value x \<noteq> None \<and> \<not> positive_integer x"
proof (cases x)
  case (PyInt i)
  then show ?thesis
    by (auto simp: not_positive_integer_def positive_integer_def py_trunc_of_int)
next
  case (PyBool b)
  then show ?thesis
    by (cases b) (auto simp: not_positive_integer_def positive_integer_def py_trunc_def)
next
  case (PyFloat f)
  then show ?thesis
    by (cases f) (auto simp: not_positive_integer_def positive_integer_def)
qed

lemma not_positive_integer_raises:
  "py_value x = None \<Longrightarrow> \<exists>e. py_int x = Inl e \<and> not_positive_integer x = Inl e"
proof (cases x)
  case (PyFloat f)
  assume "py_value x = None"
  with PyFloat show ?thesis
    by (cases f) (auto simp: not_positive_integer_def)
qed auto

lemma positive_integer_value:
  "positive_integer x \<longleftrightarrow> (\<exists>i \<ge> 1. py_value x = Some (of_int i))"
proof
  assume "positive_integer x"
  then obtain q where q: "py_value x = Some q" "of_int (py_trunc q) = q" "1 \<le> q"
    by (auto simp: positive_integer_def split: option.splits)
  then have "1 \<le> (of_int (py_trunc q) :: rat)"
    by simp
  then have "1 \<le> py_trunc q"
    by (simp only: of_int_1_le_iff)
  with q show "\<exists>i \<ge> 1. py_value x = Some (of_int i)"
    by (intro exI [of _ "py_trunc q"]) simp
next
  assume "\<exists>i \<ge> 1. py_value x = Some (of_int i)"
  then show "positive_integer x"
    by (auto simp: positive_integer_def py_trunc_of_int)
qed

text \<open>
  C2, as the specification states it: whenever \<open>k\<close> or \<open>number_of_iterations\<close> is not a
  positive integer, \<open>cluster_mutations\<close> raises the invalid-parameter error, reported
  with the parameter and the offending value, before any clustering work. An infinite
  \<open>k\<close> is not a positive integer, and neither is NaN; on them the conversion \<^verbatim>\<open>int(k)\<close> of
  line 62 raises first, an \<^verbatim>\<open>OverflowError\<close> or a \<^verbatim>\<open>ValueError\<close> that names neither the
  parameter nor its value.
\<close>

theorem cluster_mutations_infinite_k_counterexample:
  "cluster_mutations example_km example_heap 3 (PyFloat PosInf) (PyInt 10) False =
     (example_heap, Inl OverflowError_inf_to_int) \<and>
   cluster_mutations example_km example_heap 3 (PyFloat NaN) (PyInt 10) False =
     (example_heap, Inl ValueError_nan_to_int)"
  by (simp add: cluster_mutations_def not_positive_integer_def)

text \<open>
  C2, amended: for every store, every genotype matrix and every clusterer, when \<open>k\<close> is
  an int, a bool or a finite float that is not a positive integer (0 and 2.5 are; a
  fractional value is rejected, not rounded), \<open>cluster_mutations\<close> raises the
  \<^verbatim>\<open>ValueError\<close> for the number of clusters, carrying \<open>k\<close>; when \<open>k\<close> is a positive integer
  and \<open>number_of_iterations\<close> is an int, a bool or a finite float that is not one, it
  raises the \<^verbatim>\<open>ValueError\<close> for the number of iterations, carrying that value. When
  \<open>k\<close> (or, \<open>k\<close> being a positive integer, \<open>number_of_iterations\<close>) is NaN or an infinity,
  it raises what the conversion to an integer raises. In each case nothing else has
  happened: the store is as it was, and the clusterer and the matrix play no part.
\<close>

theorem cluster_mutations_rejects_parameters:
  "(py_value k \<noteq> None \<and> \<not> positive_integer k \<longrightarrow>
      cluster_mutations KModes h g k n v = (h, Inl (ValueError_clusters k))) \<and>
   (positive_integer k \<and> py_value n \<noteq> None \<and> \<not> positive_integer n \<longrightarrow>
      cluster_mutations KModes h g k n v = (h, Inl (ValueError_iterations n))) \<and>
   (py_value k = None \<longrightarrow>
      (\<exists>e. py_int k = Inl e \<and> cluster_mutations KModes h g k n v = (h, Inl e))) \<and>
   (positive_integer k \<and> py_value n = None \<longrightarrow>
      (\<exists>e. py_int n = Inl e \<and> cluster_mutations KModes h g k n v = (h, Inl e)))"
proof (intro conjI impI)
  assume "py_value k \<noteq> None \<and> \<not> positive_integer k"
  then have "not_positive_integer k = Inr True"
    by (simp add: not_positive_integer_True)
  then show "cluster_mutations KModes h g k n v = (h, Inl (ValueError_clusters k))"
    by (simp add: cluster_mutations_def)
next
  assume "positive_integer k \<and> py_value n \<noteq> None \<and> \<not> positive_integer n"
  then have "not_positive_integer k = Inr False" and "not_positive_integer n = Inr True"
    by (simp_all add: not_positive_integer_True not_positive_integer_False)
  then show "cluster_mutations KModes h g k n v = (h, Inl (ValueError_iterations n))"
    by (simp add: cluster_mutations_def)
next
  assume "py_value k = None"
  then obtain e where "py_int k = Inl e" and "not_positive_integer k = Inl e"
    using not_positive_integer_raises by blast
  then show "\<exists>e. py_int k = Inl e \<and> cluster_mutations KModes h g k n v = (h, Inl e)"
    by (simp add: cluster_mutations_def)
next
  assume a: "positive_integer k \<and> py_value n = None"
  then obtain e where "py_int n = Inl e" and "not_positive_integer n = Inl e"
    using not_positive_integer_raises by blast
  moreover from a have "not_positive_integer k = Inr False"
    by (simp add: not_positive_integer_False)
  ultimately show "\<exists>e. py_int n = Inl e \<and> cluster_mutations KModes h g k n v = (h, Inl e)"
    by (simp add: cluster_mutations_def)
qed

theorem cluster_mutations_rejects_parameters_witness:
  "cluster_mutations example_km example_heap 3 (PyInt 0) (PyInt 10) False =
     (example_heap, Inl (ValueError_clusters (PyInt 0))) \<and>
   cluster_mutations example_km example_heap 3 (PyFloat (Finite (5 / 2))) (PyInt 10) False =
     (example_heap, Inl (ValueError_clusters (PyFloat (Finite (5 / 2))))) \<and>
   cluster_mutations example_km example_heap 3 (PyInt 3) (PyFloat (Finite (-1))) False =
     (example_heap, Inl (ValueError_iterations (PyFloat (Finite (-1))))) \<and>
   cluster_mutations example_km example_heap 3 (PyFloat NegInf) (PyInt 10) False =
     (example_heap, Inl OverflowError_inf_to_int) \<and>
   cluster_mutations example_km example_heap 3 (PyBool True) (PyFloat NaN) False =
     (example_heap, Inl ValueError_nan_to_int)"
proof -
  have bad: "\<not> positive_integer (PyInt 0)" "\<not> positive_integer (PyFloat (Finite (5 / 2)))"
    "\<not> positive_integer (PyFloat (Finite (-1)))"
    by code_simp+
  have good: "positive_integer (PyInt 3)" "positive_integer (PyBool True)"
    by code_simp+
  show ?thesis
    using bad good
      cluster_mutations_rejects_parameters [of "PyInt 0" example_km example_heap 3 "PyInt 10" False]
      cluster_mutations_rejects_parameters [of "PyFloat (Finite (5 / 2))" example_km example_heap 3 "PyInt 10" False]
      cluster_mutations_rejects_parameters [of "PyInt 3" example_km example_heap 3 "PyFloat (Finite (-1))" False]
      cluster_mutations_rejects_parameters [of "PyFloat NegInf" example_km example_heap 3 "PyInt 10" False]
      cluster_mutations_rejects_parameters [of "PyBool True" example_km example_heap 3 "PyFloat NaN" False]
    by simp
qed

section \<open>\<^verbatim>\<open>cluster_mutations\<close>: the steps of a call\<close>

lemma hp_get_append: "a < length h \<Longrightarrow> hp_get (h @ xs) a = hp_get h a"
  by (simp add: hp_get_def nth_append)

lemma hp_get_Some: "hp_get h a = Some x \<Longrightarrow> a < length h"
  by (simp add: hp_get_def split: if_splits)

lemma hp_get_append_Some: "hp_get h a = Some x \<Longrightarrow> hp_get (h @ xs) a = Some x"
  by (auto simp: hp_get_def nth_append split: if_splits)

lemma gm_matrix_Some:
  "gm_matrix h g = Some rows \<longleftrightarrow>
     (\<exists>d c m. hp_get h g = Some (GenotypeMatrix d c m) \<and> hp_get h d = Some (Grid rows))"
  by (auto simp: gm_matrix_def split: option.splits obj.splits)

lemma gm_cell_labels_Some:
  "gm_cell_labels h g = Some ls \<longleftrightarrow>
     (\<exists>d c m. hp_get h g = Some (GenotypeMatrix d c m) \<and> hp_get h c = Some (StrList ls))"
  by (auto simp: gm_cell_labels_def split: option.splits obj.splits)

lemma gm_mutation_labels_Some:
  "gm_mutation_labels h g = Some ls \<longleftrightarrow>
     (\<exists>d c m. hp_get h g = Some (GenotypeMatrix d c m) \<and> hp_get h m = Some (StrList ls))"
  by (auto simp: gm_mutation_labels_def split: option.splits obj.splits)

lemma gm_cell_labels_ref_Some:
  "gm_cell_labels_ref h g = Some c \<longleftrightarrow> (\<exists>d m. hp_get h g = Some (GenotypeMatrix d c m))"
  by (auto simp: gm_cell_labels_ref_def split: option.splits obj.splits)

lemma gm_matrix_append: "gm_matrix h g = Some rows \<Longrightarrow> gm_matrix (h @ xs) g = Some rows"
  unfolding gm_matrix_Some by (blast intro: hp_get_append_Some)

lemma gm_cell_labels_append: "gm_cell_labels h g = Some ls \<Longrightarrow> gm_cell_labels (h @ xs) g = Some ls"
  unfolding gm_cell_labels_Some by (blast intro: hp_get_append_Some)

lemma gm_mutation_labels_append:
  "gm_mutation_labels h g = Some ls \<Longrightarrow> gm_mutation_labels (h @ xs) g = Some ls"
  unfolding gm_mutation_labels_Some by (blast intro: hp_get_append_Some)

lemma gm_cell_labels_ref_append:
  "gm_cell_labels_ref h g = Some c \<Longrightarrow> gm_cell_labels_ref (h @ xs) g = Some c"
  unfolding gm_cell_labels_ref_Some by (blast intro: hp_get_append_Some)

lemma np_array_Inr: "np_array rows = Inr arr \<longleftrightarrow> arr = rows \<and> list_all (\<lambda>r. length r = length (hd rows)) rows"
  by (auto simp: np_array_def)

lemma collect_Inr: "collect rs = Inr xs \<longleftrightarrow> rs = map Inr xs"
proof
  show "collect rs = Inr xs \<Longrightarrow> rs = map Inr xs"
  proof (induction rs arbitrary: xs)
    case Nil
    then show ?case by simp
  next
    case (Cons r rs)
    then show ?case
      by (cases r) (auto split: sum.splits)
  qed
  show "rs = map Inr xs \<Longrightarrow> collect rs = Inr xs"
    using collect_map_Inr [of "\<lambda>x. x" xs] by simp
qed

lemma collect_index_row:
  "collect (map (index_row arr) is) = Inr out \<longleftrightarrow> (\<forall>i \<in> set is. i < length arr) \<and> out = map (\<lambda>i. arr ! i) is"
proof -
  have "map (index_row arr) is = map Inr out \<longleftrightarrow> (\<forall>i \<in> set is. i < length arr) \<and> out = map (\<lambda>i. arr ! i) is"
  proof (induction "is" arbitrary: out)
    case Nil
    then show ?case by auto
  next
    case (Cons i "is")
    then show ?case
      by (cases out) (auto simp: index_row_def)
  qed
  then show ?thesis
    by (simp add: collect_Inr)
qed

lemma gm_matrix_ref: "gm_matrix h g = Some rows \<Longrightarrow> \<exists>c. gm_cell_labels_ref h g = Some c"
  unfolding gm_matrix_Some gm_cell_labels_ref_Some by blast

lemma gm_cell_labels_ref_back:
  assumes "gm_matrix h g = Some rows" and "gm_cell_labels_ref (h @ xs) g = Some c"
  shows "gm_cell_labels_ref h g = Some c"
proof -
  from assms(1) obtain c' where c': "gm_cell_labels_ref h g = Some c'"
    using gm_matrix_ref by blast
  then have "gm_cell_labels_ref (h @ xs) g = Some c'"
    by (rule gm_cell_labels_ref_append)
  with assms(2) c' show ?thesis
    by simp
qed

text \<open>What a call that returns has done.\<close>

lemma cluster_mutations_Inr:
  assumes "cluster_mutations KModes h g k n v = (h', Inr g')"
  shows "\<exists>rows muts c km.
    positive_integer k \<and> positive_integer n \<and>
    gm_matrix h g = Some rows \<and> list_all (\<lambda>r. length r = length (hd rows)) rows \<and>
    gm_mutation_labels (h @ [Grid (np_transpose rows)]) g = Some muts \<and>
    gm_cell_labels_ref h g = Some c \<and>
    KModes (KModes_args k n v) (np_transpose rows) = Inr km \<and>
    (let d = group_labels muts (km_labels km);
         ids = sort (map fst d);
         out = map (\<lambda>i. km_cluster_centroids km ! i) ids
     in (\<forall>i \<in> set ids. i < length (km_cluster_centroids km)) \<and>
        list_all (\<lambda>r. length r = length (hd out)) out \<and>
        h' = h @ [Grid (X_after km), StrList (map (\<lambda>i. join_commas (dd_get d i)) ids),
                  Grid (np_transpose out), GenotypeMatrix (length h + 2) c (length h + 1)] \<and>
        g' = length h + 3)"
  using assms
  by (auto simp: cluster_mutations_def Let_def hp_new_def not_positive_integer_False [symmetric]
      np_array_Inr collect_index_row
      split: sum.splits bool.splits option.splits prod.splits if_splits
      dest: gm_cell_labels_ref_back)

lemma cluster_mutations_extends: "\<exists>xs. fst (cluster_mutations KModes h g k n v) = h @ xs"
  by (auto simp: cluster_mutations_def Let_def hp_new_def
      split: sum.splits bool.splits option.splits prod.splits)

subsection \<open>The grouping loop\<close>

lemma dd_get_append:
  "dd_get (dd_append d c l) c' = (if c' = c then dd_get d c @ [l] else dd_get d c')"
  by (induction d c l rule: dd_append.induct) (auto simp: dd_get_def)

lemma keys_dd_append:
  "map fst (dd_append d c l) = (if c \<in> fst ` set d then map fst d else map fst d @ [c])"
  by (induction d c l rule: dd_append.induct) auto

lemma set_keys_dd_append: "fst ` set (dd_append d c l) = insert c (fst ` set d)"
  using keys_dd_append [of d c l, THEN arg_cong, of set] by (auto split: if_splits)

lemma dd_get_fold:
  "dd_get (fold (\<lambda>(l, c) d. dd_append d c l) zs d) c
     = dd_get d c @ map fst (filter (\<lambda>(l, c'). c' = c) zs)"
  by (induction zs arbitrary: d) (auto simp: dd_get_append)

lemma keys_fold:
  "fst ` set (fold (\<lambda>(l, c) d. dd_append d c l) zs d) = fst ` set d \<union> snd ` set zs"
  by (induction zs arbitrary: d) (simp_all add: set_keys_dd_append split_beta)

lemma distinct_keys_fold:
  "distinct (map fst d) \<Longrightarrow> distinct (map fst (fold (\<lambda>(l, c) d. dd_append d c l) zs d))"
  by (induction zs arbitrary: d) (auto simp: keys_dd_append)

lemma dd_get_empty: "dd_get [] c = []"
  by (simp add: dd_get_def)

lemma dd_get_group_labels: "dd_get (group_labels muts ids) c = members muts ids c"
  by (simp add: group_labels_def members_def dd_get_fold dd_get_empty)

lemma keys_group_labels: "fst ` set (group_labels muts ids) = snd ` set (zip muts ids)"
  by (simp add: group_labels_def keys_fold)

lemma distinct_group_labels: "distinct (map fst (group_labels muts ids))"
  by (simp add: group_labels_def distinct_keys_fold)

lemma members_nonempty: "members muts ids c \<noteq> [] \<longleftrightarrow> c \<in> snd ` set (zip muts ids)"
  by (force simp: members_def filter_empty_conv)

lemma sorted_keys:
  "sorted_wrt (<) (sort (map fst (group_labels muts ids)))"
  using distinct_group_labels [of muts ids]
  by (simp add: strict_sorted_iff)

lemma set_sorted_keys:
  "c \<in> set (sort (map fst (group_labels muts ids))) \<longleftrightarrow> members muts ids c \<noteq> []"
  by (simp add: keys_group_labels members_nonempty)

text \<open>The groups of the distinct ids that cover a list partition it.\<close>

lemma mset_groups:
  assumes "distinct cs"
  shows "mset (concat (map (\<lambda>c. filter (\<lambda>z. snd z = c) zs) cs)) = mset (filter (\<lambda>z. snd z \<in> set cs) zs)"
  using assms
proof (induction cs)
  case Nil
  then show ?case by simp
next
  case (Cons c cs)
  have "filter_mset (\<lambda>z. snd z = c) (mset zs) + filter_mset (\<lambda>z. snd z \<in> set cs) (mset zs)
      = filter_mset (\<lambda>z. snd z = c \<or> snd z \<in> set cs) (mset zs)"
    using Cons.prems by (intro multiset_eqI) auto
  with Cons show ?case
    by simp
qed

lemma mset_members:
  assumes "distinct cs" and "snd ` set (zip muts ids) \<subseteq> set cs"
  shows "mset (concat (map (members muts ids) cs)) = mset (map fst (zip muts ids))"
proof -
  let ?groups = "concat (map (\<lambda>c. filter (\<lambda>z. snd z = c) (zip muts ids)) cs)"
  have "members muts ids = (\<lambda>c. map fst (filter (\<lambda>z. snd z = c) (zip muts ids)))"
    by (simp add: members_def fun_eq_iff case_prod_unfold)
  then have "concat (map (members muts ids) cs) = map fst ?groups"
    by (simp add: map_concat comp_def)
  moreover have "filter (\<lambda>z. snd z \<in> set cs) (zip muts ids) = zip muts ids"
    using assms(2) by (auto simp: filter_id_conv)
  then have "mset ?groups = mset (zip muts ids)"
    using mset_groups [OF assms(1), of "zip muts ids"] by simp
  then have "image_mset fst (mset ?groups) = image_mset fst (mset (zip muts ids))"
    by simp
  ultimately show ?thesis
    by simp
qed

subsection \<open>Joining and splitting\<close>

lemma split_commas_no_comma: "CHR '','' \<notin> set w \<Longrightarrow> split_commas w = [w]"
  by (induction w) auto

lemma split_commas_append:
  "CHR '','' \<notin> set w \<Longrightarrow> split_commas (w @ CHR '','' # rest) = w # split_commas rest"
  by (induction w) auto

lemma split_join:
  assumes "ls \<noteq> []" and "\<forall>l \<in> set ls. CHR '','' \<notin> set l"
  shows "split_commas (join_commas ls) = ls"
  using assms
proof (induction ls rule: join_commas.induct)
  case 1
  then show ?case by simp
next
  case (2 l)
  then show ?case by (simp add: split_commas_no_comma)
next
  case (3 l l' ls)
  then show ?case by (simp add: split_commas_append)
qed

subsection \<open>Transposing\<close>

lemma length_np_transpose: "length (np_transpose rows) = ncols rows"
  by (simp add: np_transpose_def ncols_def split: list.splits)


lemma row_np_transpose: "r \<in> set (np_transpose rows) \<Longrightarrow> length r = length rows"
  by (auto simp: np_transpose_def split: list.splits)

lemma np_transpose_nonempty:
  "rows \<noteq> [] \<Longrightarrow> np_transpose rows = map (\<lambda>j. map (\<lambda>row. row ! j) rows) [0..<length (hd rows)]"
  by (cases rows) (simp_all add: np_transpose_def)

lemma column_np_transpose:
  assumes "list_all (\<lambda>r. length r = length (hd rows)) rows" and "j < length rows"
  shows "map (\<lambda>r. r ! j) (np_transpose rows) = rows ! j"
proof -
  have "length (rows ! j) = length (hd rows)"
    using assms by (simp add: list_all_length)
  then have "map (\<lambda>i. rows ! j ! i) [0..<length (hd rows)] = rows ! j"
    by (metis map_nth)
  moreover have "rows \<noteq> []"
    using assms(2) by auto
  ultimately show ?thesis
    using assms(2) by (simp add: np_transpose_nonempty comp_def)
qed

subsection \<open>The example run\<close>

lemma example_inputs:
  "gm_matrix example_heap 3 = Some [[0, 1, 0], [1, 1, 2]]"
  "gm_cell_labels example_heap 3 = Some [''c1'', ''c2'']"
  "gm_mutation_labels example_heap 3 = Some [''a'', ''b'', ''c'']"
  "np_array [[0, 1, 0], [1, 1, 2]] = Inr [[0, 1, 0], [1, 1, 2]]"
  "np_transpose [[0, 1, 0], [1, 1, 2]] = [[0, 1], [1, 1], [0, 2]]"
  by code_simp+

lemma example_run:
  "cluster_mutations example_km example_heap 3 (PyInt 3) (PyInt 10) False = (example_result, Inr 7)"
  by code_simp

lemma example_outputs:
  "gm_matrix example_result 7 = Some [[1, 0], [1, 1]]"
  "gm_cell_labels example_result 7 = Some [''c1'', ''c2'']"
  "gm_mutation_labels example_result 7 = Some [''b'', ''a,c'']"
  "hp_get example_result 7 = Some (GenotypeMatrix 6 1 5)"
  by code_simp+

section \<open>\<^verbatim>\<open>cluster_mutations\<close>: the input and the parameters\<close>

text \<open>
  C9: \<open>cluster_mutations\<close> never mutates its input. Whatever the call does (it may
  raise, and the clusterer may overwrite the array of points it is handed, which is a
  copy), every object of the store before the call is the same after it; so the
  matrix data, the cell labels and the mutation labels of the input are unchanged by
  value. A matrix that is returned is a new object: its address is none of the store
  before the call, and so not the input's. (The returned matrix refers to the input's
  list of cell labels, which it shares.)
\<close>

theorem cluster_mutations_leaves_input:
  assumes "cluster_mutations KModes h g k n v = (h', r)"
  shows "(\<forall>a < length h. hp_get h' a = hp_get h a) \<and>
         (\<forall>rows. gm_matrix h g = Some rows \<longrightarrow> gm_matrix h' g = Some rows) \<and>
         (\<forall>ls. gm_cell_labels h g = Some ls \<longrightarrow> gm_cell_labels h' g = Some ls) \<and>
         (\<forall>ls. gm_mutation_labels h g = Some ls \<longrightarrow> gm_mutation_labels h' g = Some ls) \<and>
         (\<forall>g'. r = Inr g' \<longrightarrow> length h \<le> g' \<and> g' \<noteq> g \<and>
               (\<exists>d c m. hp_get h' g' = Some (GenotypeMatrix d c m)))"
proof -
  from cluster_mutations_extends [of KModes h g k n v] assms
  obtain xs where h': "h' = h @ xs"
    by auto
  have new: "length h \<le> g' \<and> g' \<noteq> g \<and> (\<exists>d c m. hp_get h' g' = Some (GenotypeMatrix d c m))"
    if "r = Inr g'" for g'
  proof -
    from cluster_mutations_Inr [of KModes h g k n v h' g'] assms that
    obtain rows obs c where rows: "gm_matrix h g = Some rows"
      and *: "h' = h @ obs @ [GenotypeMatrix (length h + 2) c (length h + 1)]"
         "length obs = 3" "g' = length h + 3"
      by (auto simp: Let_def)
    from rows have "g < length h"
      unfolding gm_matrix_Some by (blast dest: hp_get_Some)
    with * show ?thesis
      by (auto simp: hp_get_def nth_append)
  qed
  show ?thesis
    using new by (auto simp: h' hp_get_append gm_matrix_append gm_cell_labels_append gm_mutation_labels_append)
qed

theorem cluster_mutations_leaves_input_witness:
  "cluster_mutations example_km example_heap 3 (PyInt 3) (PyInt 10) False = (example_result, Inr 7) \<and>
   gm_matrix example_result 3 = Some [[0, 1, 0], [1, 1, 2]] \<and>
   gm_cell_labels example_result 3 = Some [''c1'', ''c2''] \<and>
   gm_mutation_labels example_result 3 = Some [''a'', ''b'', ''c''] \<and>
   length example_heap \<le> 7 \<and>
   (\<exists>d c m. hp_get example_result 7 = Some (GenotypeMatrix d c m))"
  using cluster_mutations_leaves_input [OF example_run] example_run example_inputs
  by simp



section \<open>\<^verbatim>\<open>cluster_mutations\<close>: the matrix it returns\<close>

lemma gm_mutation_labels_back:
  assumes "gm_matrix h g = Some rows" and "gm_mutation_labels (h @ [Grid x]) g = Some muts"
  shows "gm_mutation_labels h g = Some muts"
proof -
  from assms(1) obtain d c m where g: "hp_get h g = Some (GenotypeMatrix d c m)"
    unfolding gm_matrix_Some by blast
  then have "hp_get (h @ [Grid x]) g = Some (GenotypeMatrix d c m)"
    by (rule hp_get_append_Some)
  with assms(2) have m: "hp_get (h @ [Grid x]) m = Some (StrList muts)"
    unfolding gm_mutation_labels_Some by simp
  then have "m < length h"
    by (cases "m = length h") (auto simp: hp_get_def split: if_splits)
  with m have "hp_get h m = Some (StrList muts)"
    by (simp add: hp_get_append)
  with g show ?thesis
    unfolding gm_mutation_labels_Some by blast
qed

text \<open>The matrix a call returns, read from the store after the call.\<close>

lemma cluster_mutations_returns:
  assumes "cluster_mutations KModes h g k n v = (h', Inr g')"
  shows "\<exists>rows muts km ids out.
    positive_integer k \<and> positive_integer n \<and>
    gm_matrix h g = Some rows \<and> list_all (\<lambda>r. length r = length (hd rows)) rows \<and>
    gm_mutation_labels h g = Some muts \<and>
    KModes (KModes_args k n v) (np_transpose rows) = Inr km \<and>
    ids = sort (map fst (group_labels muts (km_labels km))) \<and>
    out = map (\<lambda>i. km_cluster_centroids km ! i) ids \<and>
    (\<forall>i \<in> set ids. i < length (km_cluster_centroids km)) \<and>
    list_all (\<lambda>r. length r = length (hd out)) out \<and>
    gm_mutation_labels h' g' = Some (map (\<lambda>c. join_commas (members muts (km_labels km) c)) ids) \<and>
    gm_matrix h' g' = Some (np_transpose out) \<and>
    (\<forall>cells. gm_cell_labels h g = Some cells \<longrightarrow> gm_cell_labels h' g' = Some cells)"
proof -
  from cluster_mutations_Inr [OF assms]
  obtain rows muts c km where k: "positive_integer k" and n: "positive_integer n"
    and rows: "gm_matrix h g = Some rows" and rect: "list_all (\<lambda>r. length r = length (hd rows)) rows"
    and muts1: "gm_mutation_labels (h @ [Grid (np_transpose rows)]) g = Some muts"
    and c: "gm_cell_labels_ref h g = Some c"
    and km: "KModes (KModes_args k n v) (np_transpose rows) = Inr km"
    and rest: "let d = group_labels muts (km_labels km);
         ids = sort (map fst d);
         out = map (\<lambda>i. km_cluster_centroids km ! i) ids
     in (\<forall>i \<in> set ids. i < length (km_cluster_centroids km)) \<and>
        list_all (\<lambda>r. length r = length (hd out)) out \<and>
        h' = h @ [Grid (X_after km), StrList (map (\<lambda>i. join_commas (dd_get d i)) ids),
                  Grid (np_transpose out), GenotypeMatrix (length h + 2) c (length h + 1)] \<and>
        g' = length h + 3"
    by blast
  define ids where "ids = sort (map fst (group_labels muts (km_labels km)))"
  define out where "out = map (\<lambda>i. km_cluster_centroids km ! i) ids"
  define strings where "strings = map (\<lambda>c. join_commas (members muts (km_labels km) c)) ids"
  from rest have inr: "\<forall>i \<in> set ids. i < length (km_cluster_centroids km)"
    and rect_out: "list_all (\<lambda>r. length r = length (hd out)) out"
    and h': "h' = h @ [Grid (X_after km), StrList strings, Grid (np_transpose out),
                  GenotypeMatrix (length h + 2) c (length h + 1)]"
    and g': "g' = length h + 3"
    by (simp_all add: Let_def ids_def out_def strings_def dd_get_group_labels)
  have muts: "gm_mutation_labels h g = Some muts"
    using rows muts1 by (rule gm_mutation_labels_back)
  have obj: "hp_get h' g' = Some (GenotypeMatrix (length h + 2) c (length h + 1))"
    "hp_get h' (length h + 1) = Some (StrList strings)"
    "hp_get h' (length h + 2) = Some (Grid (np_transpose out))"
    by (simp_all add: h' g' hp_get_def nth_append)
  have out_muts: "gm_mutation_labels h' g' = Some strings"
    unfolding gm_mutation_labels_Some using obj by blast
  have out_rows: "gm_matrix h' g' = Some (np_transpose out)"
    unfolding gm_matrix_Some using obj by blast
  have cells: "gm_cell_labels h' g' = Some cells" if "gm_cell_labels h g = Some cells" for cells
  proof -
    from that c have "hp_get h c = Some (StrList cells)"
      unfolding gm_cell_labels_Some gm_cell_labels_ref_Some by auto
    then have "hp_get h' c = Some (StrList cells)"
      unfolding h' by (rule hp_get_append_Some)
    with obj(1) show ?thesis
      unfolding gm_cell_labels_Some by blast
  qed
  show ?thesis
    using k n rows rect muts km inr rect_out out_muts out_rows cells
    unfolding ids_def [symmetric] out_def [symmetric] strings_def
    by (intro exI [of _ rows] exI [of _ muts] exI [of _ km] exI [of _ ids] exI [of _ out])
       (simp add: ids_def out_def)
qed

lemma join_commas_explicit:
  "ls \<noteq> [] \<Longrightarrow> join_commas ls = hd ls @ concat (map (\<lambda>l. CHR '','' # l) (tl ls))"
  by (induction ls rule: join_commas.induct) auto

lemma members_subset: "set (members muts ids c) \<subseteq> set muts"
  by (auto simp: members_def dest: set_zip_leftD)

lemma sorted_keys_distinct: "distinct (sort (map fst (group_labels muts ids)))"
  by (simp add: distinct_group_labels)




lemma example_labels_contract:
  "\<forall>km. example_km (KModes_args (PyInt 3) (PyInt 10) False) (np_transpose [[0, 1, 0], [1, 1, 2]]) = Inr km \<longrightarrow>
      length (km_labels km) = length (np_transpose [[0, 1, 0], [1, 1, 2]])"
  by (auto simp: example_km_def example_inputs)

text \<open>
  C5: for every cluster assignment the clusterer returns, the matrix that
  \<open>cluster_mutations\<close> returns has one column for each cluster id to which a mutation
  is assigned and none for any other id (an id with no mutation is discarded, from the
  labels and from the grid: every row of the grid has exactly as many values as there
  are ids with a mutation); the columns are in ascending order of the cluster id; the label of a column is the
  labels of the mutations of its cluster, in their original column order, joined by
  commas (the first label, then a single comma before each further label: no padding,
  no separator at either end); and the values of the column are the centroid of its
  cluster.
\<close>

theorem cluster_mutations_groups_by_cluster:
  assumes "cluster_mutations KModes h g k n v = (h', Inr g')"
  shows "\<exists>rows muts km ids grid.
     gm_matrix h g = Some rows \<and> gm_mutation_labels h g = Some muts \<and>
     KModes (KModes_args k n v) (np_transpose rows) = Inr km \<and>
     sorted_wrt (<) ids \<and>
     (\<forall>c. c \<in> set ids \<longleftrightarrow> members muts (km_labels km) c \<noteq> []) \<and>
     gm_mutation_labels h' g' = Some (map (\<lambda>c. join_commas (members muts (km_labels km) c)) ids) \<and>
     (\<forall>c \<in> set ids. join_commas (members muts (km_labels km) c) =
         hd (members muts (km_labels km) c) @
         concat (map (\<lambda>l. CHR '','' # l) (tl (members muts (km_labels km) c)))) \<and>
     gm_matrix h' g' = Some grid \<and>
     (\<forall>r \<in> set grid. length r = length ids) \<and>
     (\<forall>j < length ids. map (\<lambda>row. row ! j) grid = km_cluster_centroids km ! (ids ! j))"
proof -
  from cluster_mutations_returns [OF assms]
  obtain rows muts km ids out where rows: "gm_matrix h g = Some rows"
    and muts: "gm_mutation_labels h g = Some muts"
    and km: "KModes (KModes_args k n v) (np_transpose rows) = Inr km"
    and ids: "ids = sort (map fst (group_labels muts (km_labels km)))"
    and out: "out = map (\<lambda>i. km_cluster_centroids km ! i) ids"
    and rect: "list_all (\<lambda>r. length r = length (hd out)) out"
    and out_muts: "gm_mutation_labels h' g' =
        Some (map (\<lambda>c. join_commas (members muts (km_labels km) c)) ids)"
    and out_rows: "gm_matrix h' g' = Some (np_transpose out)"
    by blast
  have asc: "sorted_wrt (<) ids"
    unfolding ids by (rule sorted_keys)
  have mem: "c \<in> set ids \<longleftrightarrow> members muts (km_labels km) c \<noteq> []" for c
    unfolding ids by (rule set_sorted_keys)
  have join: "join_commas (members muts (km_labels km) c) =
         hd (members muts (km_labels km) c) @
         concat (map (\<lambda>l. CHR '','' # l) (tl (members muts (km_labels km) c)))"
    if "c \<in> set ids" for c
    using that mem by (intro join_commas_explicit) simp
  have width: "\<forall>r \<in> set (np_transpose out). length r = length ids"
    using row_np_transpose [of _ out] by (simp add: out)
  have col: "map (\<lambda>row. row ! j) (np_transpose out) = km_cluster_centroids km ! (ids ! j)"
    if "j < length ids" for j
    using column_np_transpose [OF rect, of j] that by (simp add: out)
  show ?thesis
    using rows muts km asc mem out_muts join out_rows width col by blast
qed

theorem cluster_mutations_groups_by_cluster_witness:
  "cluster_mutations example_km example_heap 3 (PyInt 3) (PyInt 10) False = (example_result, Inr 7) \<and>
   gm_mutation_labels example_result 7 = Some [''b'', ''a,c''] \<and>
   gm_matrix example_result 7 = Some [[1, 0], [1, 1]] \<and>
   (\<exists>km ids.
     example_km (KModes_args (PyInt 3) (PyInt 10) False) (np_transpose [[0, 1, 0], [1, 1, 2]]) = Inr km \<and>
     sorted_wrt (<) ids \<and>
     [''b'', ''a,c''] = map (\<lambda>c. join_commas (members [''a'', ''b'', ''c''] (km_labels km) c)) ids \<and>
     length ids = 2 \<and>
     (\<forall>j < length ids. map (\<lambda>row. row ! j) [[1, 0], [1, 1]] = km_cluster_centroids km ! (ids ! j)))"
proof -
  from cluster_mutations_groups_by_cluster [OF example_run]
  obtain rows muts km ids grid where rows: "gm_matrix example_heap 3 = Some rows"
    and muts: "gm_mutation_labels example_heap 3 = Some muts"
    and km: "example_km (KModes_args (PyInt 3) (PyInt 10) False) (np_transpose rows) = Inr km"
    and asc: "sorted_wrt (<) ids"
    and out_muts: "gm_mutation_labels example_result 7 =
        Some (map (\<lambda>c. join_commas (members muts (km_labels km) c)) ids)"
    and grid: "gm_matrix example_result 7 = Some grid"
    and width: "\<forall>r \<in> set grid. length r = length ids"
    and col: "\<forall>j < length ids. map (\<lambda>row. row ! j) grid = km_cluster_centroids km ! (ids ! j)"
    by blast
  from rows muts grid have eqs: "rows = [[0, 1, 0], [1, 1, 2]]" "muts = [''a'', ''b'', ''c'']"
    "grid = [[1, 0], [1, 1]]"
    by (simp_all add: example_inputs example_outputs)
  from out_muts have lbl: "[''b'', ''a,c''] = map (\<lambda>c. join_commas (members muts (km_labels km) c)) ids"
    by (simp add: example_outputs)
  from width have two: "length ids = 2"
    by (simp add: eqs)
  have "\<exists>km ids.
     example_km (KModes_args (PyInt 3) (PyInt 10) False) (np_transpose [[0, 1, 0], [1, 1, 2]]) = Inr km \<and>
     sorted_wrt (<) ids \<and>
     [''b'', ''a,c''] = map (\<lambda>c. join_commas (members [''a'', ''b'', ''c''] (km_labels km) c)) ids \<and>
     length ids = 2 \<and>
     (\<forall>j < length ids. map (\<lambda>row. row ! j) [[1, 0], [1, 1]] = km_cluster_centroids km ! (ids ! j))"
  proof (intro exI conjI)
    show "example_km (KModes_args (PyInt 3) (PyInt 10) False) (np_transpose [[0, 1, 0], [1, 1, 2]]) = Inr km"
      by (fact km [unfolded eqs])
    show "sorted_wrt (<) ids"
      by (fact asc)
    show "[''b'', ''a,c''] = map (\<lambda>c. join_commas (members [''a'', ''b'', ''c''] (km_labels km) c)) ids"
      by (fact lbl [unfolded eqs])
    show "length ids = 2"
      by (fact two)
    show "\<forall>j < length ids. map (\<lambda>row. row ! j) [[1, 0], [1, 1]] = km_cluster_centroids km ! (ids ! j)"
      by (fact col [unfolded eqs])
  qed
  then show ?thesis
    by (simp add: example_run example_outputs)
qed

text \<open>
  C3, as the specification states it: for every successful run, splitting each output
  label on commas and taking the union over the output columns yields exactly the
  multiset of the input's mutation labels. An input label that holds a comma itself
  (the labels of a matrix that \<open>cluster_mutations\<close> returned do) is split as well: the
  run below is given the labels \<open>a,b\<close>, \<open>c\<close> and \<open>d\<close> and returns \<open>c\<close> and \<open>a,b,d\<close>, which
  split into \<open>c\<close>, \<open>a\<close>, \<open>b\<close> and \<open>d\<close>.
\<close>

theorem cluster_mutations_comma_label_counterexample:
  "snd (cluster_mutations example_km comma_heap 3 (PyInt 3) (PyInt 10) False) = Inr 7 \<and>
   gm_mutation_labels comma_heap 3 = Some [''a,b'', ''c'', ''d''] \<and>
   gm_mutation_labels (fst (cluster_mutations example_km comma_heap 3 (PyInt 3) (PyInt 10) False)) 7
     = Some [''c'', ''a,b,d''] \<and>
   concat (map split_commas [''c'', ''a,b,d'']) = [''c'', ''a'', ''b'', ''d''] \<and>
   mset [''c'', ''a'', ''b'', ''d''] \<noteq> mset [''a,b'', ''c'', ''d'']"
proof -
  have "size (mset [''c'', ''a'', ''b'', ''d'']) \<noteq> size (mset [''a,b'', ''c'', ''d''])"
    by simp
  then have "mset [''c'', ''a'', ''b'', ''d''] \<noteq> mset [''a,b'', ''c'', ''d'']"
    by metis
  moreover have "snd (cluster_mutations example_km comma_heap 3 (PyInt 3) (PyInt 10) False) = Inr 7"
    "gm_mutation_labels comma_heap 3 = Some [''a,b'', ''c'', ''d'']"
    "gm_mutation_labels (fst (cluster_mutations example_km comma_heap 3 (PyInt 3) (PyInt 10) False)) 7
     = Some [''c'', ''a,b,d'']"
    "concat (map split_commas [''c'', ''a,b,d'']) = [''c'', ''a'', ''b'', ''d'']"
    by code_simp+
  ultimately show ?thesis
    by simp
qed

text \<open>
  C3, amended: for every successful run on a matrix with one label for each mutation
  column, the clusterer having returned one cluster id for each point, the output
  labels are the comma-joined labels of groups that partition the input's labels:
  no group is empty, and the groups together hold exactly the multiset of the
  input's labels, each label in one group, none twice and none left out. When no
  input label holds a comma, splitting each output label on commas and taking the
  union over the output columns yields exactly the multiset of the input's labels.
\<close>

theorem cluster_mutations_partitions_labels:
  assumes run: "cluster_mutations KModes h g k n v = (h', Inr g')"
    and rows: "gm_matrix h g = Some rows"
    and muts: "gm_mutation_labels h g = Some muts"
    and inv: "length muts = ncols rows"
    and contract: "\<forall>km. KModes (KModes_args k n v) (np_transpose rows) = Inr km \<longrightarrow>
                     length (km_labels km) = length (np_transpose rows)"
  shows "\<exists>outs groups.
     gm_mutation_labels h' g' = Some outs \<and> outs = map join_commas groups \<and>
     [] \<notin> set groups \<and> mset (concat groups) = mset muts \<and>
     ((\<forall>l \<in> set muts. CHR '','' \<notin> set l) \<longrightarrow>
        mset (concat (map split_commas outs)) = mset muts)"
proof -
  from cluster_mutations_returns [OF run] rows muts
  obtain km ids where km: "KModes (KModes_args k n v) (np_transpose rows) = Inr km"
    and ids: "ids = sort (map fst (group_labels muts (km_labels km)))"
    and out_muts: "gm_mutation_labels h' g' =
        Some (map (\<lambda>c. join_commas (members muts (km_labels km) c)) ids)"
    by auto
  define groups where "groups = map (members muts (km_labels km)) ids"
  from contract km inv have len: "length (km_labels km) = length muts"
    by (simp add: length_np_transpose)
  have outs: "map (\<lambda>c. join_commas (members muts (km_labels km) c)) ids = map join_commas groups"
    by (simp add: groups_def)
  have nonempty: "[] \<notin> set groups"
  proof
    assume "[] \<in> set groups"
    then obtain c where "c \<in> set ids" and "members muts (km_labels km) c = []"
      unfolding groups_def by auto
    then show False
      using set_sorted_keys [of c muts "km_labels km"] unfolding ids by blast
  qed
  have "snd ` set (zip muts (km_labels km)) \<subseteq> set ids"
    by (simp add: ids keys_group_labels)
  then have "mset (concat groups) = mset (map fst (zip muts (km_labels km)))"
    unfolding groups_def using sorted_keys_distinct [of muts "km_labels km"]
    by (intro mset_members) (simp_all add: ids)
  with len have part: "mset (concat groups) = mset muts"
    by simp
  have split: "mset (concat (map split_commas (map join_commas groups))) = mset muts"
    if free: "\<forall>l \<in> set muts. CHR '','' \<notin> set l"
  proof -
    have "split_commas (join_commas ls) = ls" if "ls \<in> set groups" for ls
    proof (rule split_join)
      show "ls \<noteq> []"
        using that nonempty by auto
      from that have "set ls \<subseteq> set muts"
        using members_subset by (auto simp: groups_def)
      with free show "\<forall>l \<in> set ls. CHR '','' \<notin> set l"
        by auto
    qed
    then have "map split_commas (map join_commas groups) = groups"
      by (simp add: map_idI)
    with part show ?thesis
      by simp
  qed
  show ?thesis
    using out_muts outs nonempty part split by auto
qed

theorem cluster_mutations_partitions_labels_witness:
  "gm_mutation_labels example_heap 3 = Some [''a'', ''b'', ''c''] \<and>
   gm_mutation_labels example_result 7 = Some [''b'', ''a,c''] \<and>
   (\<exists>groups. [''b'', ''a,c''] = map join_commas groups \<and> [] \<notin> set groups \<and>
      mset (concat groups) = mset [''a'', ''b'', ''c'']) \<and>
   mset (concat (map split_commas [''b'', ''a,c''])) = mset [''a'', ''b'', ''c'']"
proof -
  have inv: "length [''a'', ''b'', ''c''] = ncols [[0, 1, 0], [1, 1, 2]]"
    by (simp add: ncols_def)
  have free: "\<forall>l \<in> set [''a'', ''b'', ''c'']. CHR '','' \<notin> set l"
    by simp
  from cluster_mutations_partitions_labels [OF example_run example_inputs(1) example_inputs(3) inv example_labels_contract] free
  show ?thesis
    using example_inputs(3) example_outputs(3) by auto
qed




end
